theory Spec2Isabelle
  imports Complex_Main
begin

section \<open>JavaScript values as they reach the service\<close>

text \<open>
  The request body is parsed JSON, so a raw manifest is a JSON value. \<open>JUndefined\<close>
  is what reading a missing property yields. Numbers are modelled as rationals:
  arithmetic is exact, and NaN, the infinities and the rounding of IEEE doubles are
  outside the model. An object is the list of its own properties (keys unique).
\<close>

datatype jsval =
    JUndefined
  | JNull
  | JBool bool
  | JNum rat
  | JStr string
  | JArr "jsval list"
  | JObj "(string \<times> jsval) list"

datatype js_error =
    CannotReadProperty string  \<comment> \<open>TypeError: reading a property of null or undefined\<close>
  | NotAFunction string        \<comment> \<open>TypeError: calling something that is not a function\<close>

text \<open>ToBoolean: the operand test of \<open>!\<close>, \<open>||\<close>, \<open>&&\<close> and \<open>if\<close>.\<close>

fun truthy :: "jsval \<Rightarrow> bool" where
  "truthy JUndefined = False"
| "truthy JNull = False"
| "truthy (JBool b) = b"
| "truthy (JNum n) = (n \<noteq> 0)"
| "truthy (JStr s) = (s \<noteq> [])"
| "truthy (JArr xs) = True"
| "truthy (JObj kvs) = True"

text \<open>\<open>a || b\<close> where evaluating \<open>b\<close> cannot throw.\<close>

definition or_else :: "jsval \<Rightarrow> jsval \<Rightarrow> jsval" where
  "or_else a b = (if truthy a then a else b)"

fun nullish :: "jsval \<Rightarrow> bool" where
  "nullish JUndefined = True"
| "nullish JNull = True"
| "nullish v = False"

text \<open>
  \<open>v?.k\<close>: undefined on null and undefined, the own property of an object, and
  undefined otherwise. Every key the service reads (scenes, meta, fps, components,
  visuals, type, rationale, id, start, start_time, duration, narration, text, audioUrl,
  layout, manifest, analysis, manifest_id) is absent from the prototypes of strings,
  numbers, booleans and arrays, so those values yield undefined.
\<close>

fun opt_member :: "jsval \<Rightarrow> string \<Rightarrow> jsval" where
  "opt_member (JObj kvs) k = (case map_of kvs k of None \<Rightarrow> JUndefined | Some v \<Rightarrow> v)"
| "opt_member v k = JUndefined"

text \<open>\<open>v.k\<close>: throws on null and undefined.\<close>

definition member :: "jsval \<Rightarrow> string \<Rightarrow> js_error + jsval" where
  "member v k = (if nullish v then Inl (CannotReadProperty k) else Inr (opt_member v k))"

definition bind_err :: "'e + 'a \<Rightarrow> ('a \<Rightarrow> 'e + 'b) \<Rightarrow> 'e + 'b" where
  "bind_err r f = (case r of Inl e \<Rightarrow> Inl e | Inr v \<Rightarrow> f v)"

text \<open>\<open>typeof v === 'string'\<close> and \<open>typeof v === 'object'\<close> (null is an object).\<close>

fun typeof_string :: "jsval \<Rightarrow> bool" where
  "typeof_string (JStr s) = True"
| "typeof_string v = False"

fun typeof_object :: "jsval \<Rightarrow> bool" where
  "typeof_object JNull = True"
| "typeof_object (JArr xs) = True"
| "typeof_object (JObj kvs) = True"
| "typeof_object v = False"

text \<open>Decimal rendering of an array index inside a template literal.\<close>

fun nat_to_string :: "nat \<Rightarrow> string" where
  "nat_to_string n =
     (if n < 10 then [''0123456789'' ! n]
      else nat_to_string (n div 10) @ [''0123456789'' ! (n mod 10)])"

declare nat_to_string.simps [simp del]

definition int_to_string :: "int \<Rightarrow> string" where
  "int_to_string k = (if k < 0 then CHR ''-'' # nat_to_string (nat (- k)) else nat_to_string (nat k))"

fun join_with :: "string \<Rightarrow> string list \<Rightarrow> string" where
  "join_with sep [] = []"
| "join_with sep [x] = x"
| "join_with sep (x # y # zs) = x @ sep @ join_with sep (y # zs)"

text \<open>
  ToString of an array element, as \<open>Array.prototype.join\<close> applies it: null and
  undefined give the empty string, a nested array is joined with a comma. The rendering
  of a number is the built-in \<open>Number::toString\<close>, taken as the parameter \<open>nts\<close>.
\<close>

fun join_item :: "(rat \<Rightarrow> string) \<Rightarrow> jsval \<Rightarrow> string" where
  "join_item nts JUndefined = []"
| "join_item nts JNull = []"
| "join_item nts (JBool b) = (if b then ''true'' else ''false'')"
| "join_item nts (JNum n) = nts n"
| "join_item nts (JStr s) = s"
| "join_item nts (JArr xs) = join_with '','' (map (join_item nts) xs)"
| "join_item nts (JObj kvs) = ''[object Object]''"

definition array_join :: "(rat \<Rightarrow> string) \<Rightarrow> string \<Rightarrow> jsval list \<Rightarrow> string" where
  "array_join nts sep xs = join_with sep (map (join_item nts) xs)"

text \<open>\<open>{ ...obj, k: v }\<close>: the own properties in order, \<open>k\<close> overwritten or appended.\<close>

fun set_prop :: "string \<Rightarrow> jsval \<Rightarrow> (string \<times> jsval) list \<Rightarrow> (string \<times> jsval) list" where
  "set_prop k v [] = [(k, v)]"
| "set_prop k v ((k', v') # kvs) = (if k' = k then (k, v) # kvs else (k', v') # set_prop k v kvs)"

text \<open>\<open>xs.map(f)\<close> with the index, stopping at the first exception.\<close>

fun map_idx :: "(nat \<Rightarrow> jsval \<Rightarrow> js_error + 'a) \<Rightarrow> nat \<Rightarrow> jsval list \<Rightarrow> js_error + 'a list" where
  "map_idx f i [] = Inr []"
| "map_idx f i (x # xs) =
     (case f i x of
        Inl e \<Rightarrow> Inl e
      | Inr y \<Rightarrow> (case map_idx f (Suc i) xs of Inl e \<Rightarrow> Inl e | Inr ys \<Rightarrow> Inr (y # ys)))"

section \<open>The normalized manifest\<close>

record narration_seg =
  ntext :: jsval
  audioUrl :: jsval

record visuals_rec =
  layout :: jsval
  components :: "jsval list"

record scene =
  sid :: jsval
  start :: jsval
  duration :: jsval
  narration :: narration_seg
  visuals :: visuals_rec

record manifest =
  meta :: jsval
  scenes :: "scene list"

definition default_meta :: jsval where
  "default_meta = JObj [(''loan_id'', JStr ''unknown''), (''version'', JStr ''1.0''),
     (''theme'', JStr ''institutional-dark''), (''resolution'', JStr ''1920x1080''),
     (''fps'', JNum 30)]"

section \<open>transformManifest\<close>

text \<open>The callback of \<open>rawComponents.map\<close>: a recommendation's rationale array is joined.\<close>

definition transformComponent :: "(rat \<Rightarrow> string) \<Rightarrow> jsval \<Rightarrow> js_error + jsval" where
  "transformComponent nts component =
     bind_err (member component ''type'') (\<lambda>ty.
       if ty = JStr ''recommendation'' then
         (case (component, opt_member component ''rationale'') of
            (JObj kvs, JArr rs) \<Rightarrow>
              Inr (JObj (set_prop ''rationale'' (JStr (array_join nts ''. '' rs)) kvs))
          | _ \<Rightarrow> Inr component)
       else Inr component)"

fun map_array :: "string \<Rightarrow> (nat \<Rightarrow> jsval \<Rightarrow> js_error + 'a) \<Rightarrow> jsval \<Rightarrow> js_error + 'a list" where
  "map_array what f (JArr xs) = map_idx f 0 xs"
| "map_array what f v = Inl (NotAFunction what)"

text \<open>
  The callback of \<open>scenes.map\<close>. The first read, \<open>scene.components\<close>, throws on a null
  scene; the components are mapped before the object literal is built; inside the
  literal only \<open>scene.narration.audioUrl\<close> is read without a guard.
\<close>

definition transformScene :: "(rat \<Rightarrow> string) \<Rightarrow> nat \<Rightarrow> jsval \<Rightarrow> js_error + scene" where
  "transformScene nts idx scn =
     bind_err (member scn ''components'') (\<lambda>comps.
     let rawComponents =
           or_else (or_else comps (opt_member (opt_member scn ''visuals'') ''components'')) (JArr [])
     in
     bind_err (map_array ''rawComponents.map'' (\<lambda>_. transformComponent nts) rawComponents)
       (\<lambda>transformedComponents.
     let nar = opt_member scn ''narration'';
         txt = (if typeof_string nar then nar else or_else (opt_member nar ''text'') (JStr []))
     in
     bind_err (if typeof_object nar then member nar ''audioUrl'' else Inr JNull) (\<lambda>url.
     Inr \<lparr> sid = or_else (opt_member scn ''id'') (JStr (''scene_'' @ nat_to_string idx)),
           start = or_else (or_else (opt_member scn ''start'') (opt_member scn ''start_time'')) (JNum 0),
           duration = or_else (opt_member scn ''duration'') (JNum 10),
           narration = \<lparr> ntext = txt, audioUrl = url \<rparr>,
           visuals = \<lparr> layout = or_else (opt_member (opt_member scn ''visuals'') ''layout'')
                                   (JStr ''centered''),
                       components = transformedComponents \<rparr> \<rparr>)))"

text \<open>\<open>None\<close> is the \<open>null\<close> returned for a falsy argument.\<close>

definition transformManifest :: "(rat \<Rightarrow> string) \<Rightarrow> jsval \<Rightarrow> js_error + manifest option" where
  "transformManifest nts aiManifest =
     (if \<not> truthy aiManifest then Inr None
      else
        bind_err (map_array ''scenes.map'' (transformScene nts)
                    (or_else (opt_member aiManifest ''scenes'') (JArr [])))
          (\<lambda>ss. Inr (Some \<lparr> meta = or_else (opt_member aiManifest ''meta'') default_meta,
                             scenes = ss \<rparr>)))"

section \<open>Render planning\<close>

text \<open>
  \<open>scenes.reduce((acc, s) => acc + s.duration, 0)\<close> on numeric durations. \<open>None\<close>
  stands for the string concatenations and NaN that JavaScript produces when a duration
  is not a number; the model does not compute them.
\<close>

fun sum_durations :: "rat \<Rightarrow> scene list \<Rightarrow> rat option" where
  "sum_durations acc [] = Some acc"
| "sum_durations acc (s # ss) =
     (case duration s of JNum d \<Rightarrow> sum_durations (acc + d) ss | _ \<Rightarrow> None)"

definition fps_of :: "manifest \<Rightarrow> jsval" where
  "fps_of tm = or_else (opt_member (meta tm) ''fps'') (JNum 30)"

definition totalDurationInSeconds :: "manifest \<Rightarrow> rat option" where
  "totalDurationInSeconds tm = sum_durations 0 (scenes tm)"

definition durationInFrames :: "manifest \<Rightarrow> int option" where
  "durationInFrames tm =
     (case (fps_of tm, totalDurationInSeconds tm) of
        (JNum f, Some t) \<Rightarrow> Some (max 1 (\<lfloor>t * f\<rfloor>))
      | _ \<Rightarrow> None)"

text \<open>\<open>Math.round\<close>: to the nearest integer, a half going up.\<close>

definition math_round :: "rat \<Rightarrow> int" where
  "math_round x = \<lfloor>x + 1 / 2\<rfloor>"

section \<open>The collaborators and the world they act on\<close>

text \<open>
  One write to the \<open>videos\<close> table. The fields \<open>manifest_id\<close>, \<open>isReady\<close> and
  \<open>storage_metadata\<close> are not recorded. The query builder of the database client
  resolves to an object carrying \<open>error\<close> and never rejects, and the service ignores
  that object, so a write is an append to the log.
\<close>

record job_update =
  u_status :: "string option"
  u_progress :: "int option"
  u_label :: "string option"
  u_video_url :: "string option"

text \<open>The calls of the render engine, with the scenes handed over as input props.\<close>

datatype engine_call =
    Bundle
  | SelectComposition "scene list"
  | RenderMedia "scene list" "int option"

text \<open>
  What the job acts on: the files on the local disk, the objects of the
  \<open>narration-audio\<close> and \<open>videos\<close> buckets, the writes to the \<open>videos\<close> and
  \<open>artifacts\<close> tables in order, the requests sent to the Speech Synthesizer (scene
  index and text), the calls of the render engine and the number of job ids drawn.
\<close>

record world =
  local_files :: "string set"
  audio_objects :: "string set"
  video_objects :: "string set"
  videos_rows :: "(string \<times> job_update) list"
  artifacts_rows :: "string list"
  speech_requests :: "(nat \<times> string) list"
  engine_calls :: "engine_call list"
  ids_generated :: nat

text \<open>What happens to the audio of one scene once the guard has let it through.\<close>

datatype audio_outcome =
    SpeakThrows          \<comment> \<open>the request or \<open>getStream\<close> rejects\<close>
  | NoStream             \<comment> \<open>\<open>getStream\<close> resolves to null\<close>
  | PipelineThrows bool  \<comment> \<open>writing the file fails; whether a partial file is left\<close>
  | UploadFails          \<comment> \<open>the file is written; the upload throws or returns an error\<close>
  | Uploaded string      \<comment> \<open>written and uploaded; the public URL\<close>

datatype upload_outcome = UploadThrows | UploadError | UploadOk string

datatype render_outcome =
    RenderThrows bool    \<comment> \<open>whether a partial output file is left\<close>
  | RenderOk

record progress_event =
  t_check :: int      \<comment> \<open>\<open>Date.now()\<close> in the throttle test\<close>
  fraction :: rat
  t_set :: int        \<comment> \<open>\<open>Date.now()\<close> stored after the write\<close>

text \<open>
  What the environment and the collaborators answer during one job: the directories and
  the public host, the id \<open>crypto.randomUUID\<close> returns, the outcome of bundling, of each
  scene's audio, of \<open>selectComposition\<close> and of the render with its progress
  callbacks, the outcome of the video upload, whether the row read back for the artifacts
  sync carries a manifest id, and whether each deletion of the cleanup succeeds.
\<close>

record env =
  outputDir :: string
  audioDir :: string
  publicHost :: string
  randomUUID :: string
  bundle_ok :: bool
  speech :: "nat \<Rightarrow> audio_outcome"
  select_ok :: bool
  render_start :: int
  render_events :: "progress_event list"
  render_result :: render_outcome
  video_upload :: upload_outcome
  video_row_manifest :: bool
  unlink_ok :: "string \<Rightarrow> bool"
  remove_ok :: bool

datatype job_error = BundleFailed | SelectFailed | RenderFailed

record job =
  audioFiles :: "string list"
  supabaseAudioPaths :: "string list"

definition db_write :: "string \<Rightarrow> job_update \<Rightarrow> world \<Rightarrow> world" where
  "db_write videoId u w = w\<lparr>videos_rows := videos_rows w @ [(videoId, u)]\<rparr>"

definition no_update :: job_update where
  "no_update = \<lparr>u_status = None, u_progress = None, u_label = None, u_video_url = None\<rparr>"

section \<open>The per-scene narration loop\<close>

definition audioProgress :: "nat \<Rightarrow> nat \<Rightarrow> int" where
  "audioProgress i totalScenes = math_round ((of_nat i / of_nat totalScenes) * 25) + 5"

definition needs_audio :: "scene \<Rightarrow> bool" where
  "needs_audio s = (truthy (ntext (narration s)) \<and> \<not> truthy (audioUrl (narration s)))"

definition audio_file_name :: "string \<Rightarrow> nat \<Rightarrow> string" where
  "audio_file_name videoId i = videoId @ ''_scene_'' @ nat_to_string i @ ''.mp3''"

definition audio_path :: "env \<Rightarrow> string \<Rightarrow> nat \<Rightarrow> string" where
  "audio_path e videoId i = audioDir e @ ''/'' @ audio_file_name videoId i"

text \<open>
  The guarded body of one iteration. Inside the \<open>try\<close>, \<open>text.substring\<close> is called
  before the request: on a truthy text that is not a string it throws, and the
  \<open>catch\<close> of the scene absorbs it like every other failure of the scene.
\<close>

definition audio_scene :: "env \<Rightarrow> string \<Rightarrow> nat \<Rightarrow> scene \<Rightarrow> job \<Rightarrow> world \<Rightarrow> scene \<times> job \<times> world" where
  "audio_scene e videoId i s j w =
     (if needs_audio s then
        (case ntext (narration s) of
           JStr txt \<Rightarrow>
             (let audioFileName = audio_file_name videoId i;
                  audioPath = audio_path e videoId i;
                  w1 = w\<lparr>speech_requests := speech_requests w @ [(i, txt)]\<rparr>;
                  written = w1\<lparr>local_files := insert audioPath (local_files w1)\<rparr>
              in case speech e i of
                   SpeakThrows \<Rightarrow> (s, j, w1)
                 | NoStream \<Rightarrow> (s, j, w1)
                 | PipelineThrows left \<Rightarrow> (s, j, if left then written else w1)
                 | UploadFails \<Rightarrow> (s, j, written)
                 | Uploaded url \<Rightarrow>
                     (s\<lparr>narration := (narration s)\<lparr>audioUrl := JStr url\<rparr>\<rparr>,
                      j\<lparr>audioFiles := audioFiles j @ [audioPath],
                        supabaseAudioPaths := supabaseAudioPaths j @ [audioFileName]\<rparr>,
                      written\<lparr>audio_objects := insert audioFileName (audio_objects written)\<rparr>))
         | _ \<Rightarrow> (s, j, w))
      else (s, j, w))"

fun audio_loop :: "env \<Rightarrow> string \<Rightarrow> nat \<Rightarrow> nat \<Rightarrow> scene list \<Rightarrow> job \<Rightarrow> world \<Rightarrow> scene list \<times> job \<times> world" where
  "audio_loop e videoId totalScenes i [] j w = ([], j, w)"
| "audio_loop e videoId totalScenes i (s # ss) j w =
     (case audio_scene e videoId i s j
             (db_write videoId
                (no_update\<lparr>u_progress := Some (audioProgress i totalScenes),
                           u_label := Some (''Generating Audio ('' @ nat_to_string (i + 1) @ ''/''
                                            @ nat_to_string totalScenes @ '')'')\<rparr>) w) of
        (s', j', w') \<Rightarrow>
          (case audio_loop e videoId totalScenes (Suc i) ss j' w' of
             (ss', j'', w'') \<Rightarrow> (s' # ss', j'', w'')))"

section \<open>Rendering, publication and cleanup\<close>

text \<open>The \<open>onProgress\<close> callback over the events of one render, in order.\<close>

fun on_progress :: "string \<Rightarrow> progress_event list \<Rightarrow> int \<Rightarrow> world \<Rightarrow> world" where
  "on_progress videoId [] lastUpdate w = w"
| "on_progress videoId (ev # evs) lastUpdate w =
     (if t_check ev - lastUpdate > 1000 then
        on_progress videoId evs (t_set ev)
          (db_write videoId
             (no_update\<lparr>u_progress := Some (30 + math_round (fraction ev * 60)),
                        u_label := Some (''Rendering ('' @ int_to_string (math_round (fraction ev * 100))
                                         @ ''%)'')\<rparr>) w)
      else on_progress videoId evs lastUpdate w)"

definition try_unlink :: "env \<Rightarrow> string \<Rightarrow> world \<Rightarrow> world" where
  "try_unlink e p w =
     (if p \<in> local_files w then
        (if unlink_ok e p then w\<lparr>local_files := local_files w - {p}\<rparr> else w)
      else w)"

text \<open>The \<open>finally\<close> block.\<close>

definition cleanup :: "env \<Rightarrow> string \<Rightarrow> job \<Rightarrow> world \<Rightarrow> world" where
  "cleanup e outputLocation j w =
     (let w1 = try_unlink e outputLocation w;
          w2 = fold (try_unlink e) (audioFiles j) w1
      in if supabaseAudioPaths j \<noteq> [] \<and> remove_ok e
         then w2\<lparr>audio_objects := audio_objects w2 - set (supabaseAudioPaths j)\<rparr>
         else w2)"

text \<open>
  The start of the \<open>try\<close> block: the initial row, written only for a job with a
  \<open>manifest_id\<close>, and the call of \<open>bundle\<close>. The best-effort bucket check before
  it changes nothing that is recorded here.
\<close>

definition start_job :: "string \<Rightarrow> jsval \<Rightarrow> world \<Rightarrow> world" where
  "start_job videoId manifest_id w0 =
     (let w1 = (if truthy manifest_id
                then db_write videoId
                       (no_update\<lparr>u_status := Some ''processing'', u_progress := Some 5,
                                  u_label := Some ''Bundling project''\<rparr>) w0
                else w0)
      in w1\<lparr>engine_calls := engine_calls w1 @ [Bundle]\<rparr>)"

text \<open>\<open>renderMedia\<close> with its progress callback; the error, if it throws.\<close>

definition render_video :: "env \<Rightarrow> string \<Rightarrow> string \<Rightarrow> scene list \<Rightarrow> int option \<Rightarrow> world \<Rightarrow> job_error option \<times> world" where
  "render_video e videoId outputLocation ss frames w4 =
     (let w5 = w4\<lparr>engine_calls := engine_calls w4 @ [RenderMedia ss frames]\<rparr>;
          w6 = on_progress videoId (render_events e) (render_start e) w5;
          rendered = w6\<lparr>local_files := insert outputLocation (local_files w6)\<rparr>
      in case render_result e of
           RenderThrows left \<Rightarrow> (Some RenderFailed, if left then rendered else w6)
         | RenderOk \<Rightarrow> (None, rendered))"

text \<open>
  After a successful render: the 95 update, the upload with its local fallback URL, the
  \<open>completed\<close> update and the best-effort sync of the artifacts table.
\<close>

definition publish_video :: "env \<Rightarrow> string \<Rightarrow> jsval \<Rightarrow> world \<Rightarrow> world" where
  "publish_video e videoId manifest_id w6 =
     (let w7 = db_write videoId
                 (no_update\<lparr>u_progress := Some 95, u_label := Some ''Uploading to storage''\<rparr>) w6;
          fileName = videoId @ ''.mp4'';
          localUrl = publicHost e @ ''/videos/'' @ videoId @ ''.mp4'';
          videoUrl = (case video_upload e of UploadOk url \<Rightarrow> url | _ \<Rightarrow> localUrl);
          w8 = (case video_upload e of
                  UploadOk url \<Rightarrow> w7\<lparr>video_objects := insert fileName (video_objects w7)\<rparr>
                | _ \<Rightarrow> w7);
          w9 = db_write videoId
                 \<lparr>u_status = Some ''completed'', u_progress = Some 100,
                  u_label = Some ''Finished'', u_video_url = Some videoUrl\<rparr> w8
      in if truthy manifest_id \<and> video_row_manifest e
         then w9\<lparr>artifacts_rows := artifacts_rows w9 @ [videoUrl]\<rparr>
         else w9)"

text \<open>
  The \<open>try\<close> block. The result is the error that left it, if any, with the tracked
  paths and the world at that point.
\<close>

definition try_block :: "env \<Rightarrow> string \<Rightarrow> string \<Rightarrow> jsval \<Rightarrow> manifest \<Rightarrow> world \<Rightarrow> job_error option \<times> job \<times> world" where
  "try_block e videoId outputLocation manifest_id tm w0 =
     (let w2 = start_job videoId manifest_id w0;
          j0 = \<lparr>audioFiles = [], supabaseAudioPaths = []\<rparr>
      in if \<not> bundle_ok e then (Some BundleFailed, j0, w2)
         else
           (case audio_loop e videoId (length (scenes tm)) 0 (scenes tm) j0 w2 of
              (ss, j, w3) \<Rightarrow>
                (let w4 = w3\<lparr>engine_calls := engine_calls w3 @ [SelectComposition ss]\<rparr>
                 in if \<not> select_ok e then (Some SelectFailed, j, w4)
                    else
                      (case render_video e videoId outputLocation ss (durationInFrames tm) w4 of
                         (Some err, w6) \<Rightarrow> (Some err, j, w6)
                       | (None, w6) \<Rightarrow> (None, j, publish_video e videoId manifest_id w6)))))"

text \<open>The detached task: \<open>try\<close>, \<open>catch\<close>, \<open>finally\<close>.\<close>

definition background :: "env \<Rightarrow> string \<Rightarrow> string \<Rightarrow> jsval \<Rightarrow> manifest \<Rightarrow> world \<Rightarrow> world" where
  "background e videoId outputLocation manifest_id tm w =
     (case try_block e videoId outputLocation manifest_id tm w of
        (r, j, w1) \<Rightarrow>
          cleanup e outputLocation j
            (case r of
               Some err \<Rightarrow> db_write videoId (no_update\<lparr>u_status := Some ''failed''\<rparr>) w1
             | None \<Rightarrow> w1))"

section \<open>The submission handler\<close>

datatype response = BadRequest string | Processing string

text \<open>
  \<open>POST /generate-video\<close>. An exception of \<open>transformManifest\<close> leaves the handler
  before anything else happens. After the response the detached task runs; its effect
  on the world is the second component. The \<open>analysis\<close> field of the body is handed
  to the render engine unread and is left out.
\<close>

definition generate_video :: "(rat \<Rightarrow> string) \<Rightarrow> env \<Rightarrow> jsval \<Rightarrow> world \<Rightarrow> (js_error + response) \<times> world" where
  "generate_video nts e body w =
     (case member body ''manifest'' of
        Inl err \<Rightarrow> (Inl err, w)
      | Inr mf \<Rightarrow>
          (let manifest_id = opt_member body ''manifest_id''
           in if \<not> truthy mf then (Inr (BadRequest ''Missing manifest''), w)
              else
                (case transformManifest nts mf of
                   Inl err \<Rightarrow> (Inl err, w)
                 | Inr None \<Rightarrow> (Inr (BadRequest ''Invalid or empty manifest''), w)
                 | Inr (Some tm) \<Rightarrow>
                     if length (scenes tm) = 0
                     then (Inr (BadRequest ''Invalid or empty manifest''), w)
                     else
                       (let videoId = randomUUID e;
                            outputLocation = outputDir e @ ''/'' @ videoId @ ''.mp4''
                        in (Inr (Processing videoId),
                            background e videoId outputLocation manifest_id tm
                              (w\<lparr>ids_generated := Suc (ids_generated w)\<rparr>))))))"

text \<open>The rows written to the job store after the state \<open>w\<close>, and their progress values.\<close>

definition rows_since :: "world \<Rightarrow> world \<Rightarrow> (string \<times> job_update) list" where
  "rows_since w w' = drop (length (videos_rows w)) (videos_rows w')"

definition progress_values :: "string \<Rightarrow> (string \<times> job_update) list \<Rightarrow> int list" where
  "progress_values videoId rows =
     concat (map (\<lambda>(k, u). case u_progress u of Some p \<Rightarrow> (if k = videoId then [p] else []) | None \<Rightarrow> []) rows)"

text \<open>
  The guard of the narration loop in the spec's words: the text sent to the Speech
  Synthesizer for a scene, if any. A scene is sent exactly when its text is a non-empty
  string and it carries no audio URL.
\<close>

definition speech_text :: "scene \<Rightarrow> string option" where
  "speech_text s =
     (case ntext (narration s) of
        JStr txt \<Rightarrow> if txt \<noteq> [] \<and> \<not> truthy (audioUrl (narration s)) then Some txt else None
      | _ \<Rightarrow> None)"


text \<open>
  The rows a job has added to the store since \<open>w\<close>: their progress values are in
  order and stay below a bound; each of them satisfies a property.
\<close>

definition progress_upto :: "string \<Rightarrow> int \<Rightarrow> world \<Rightarrow> world \<Rightarrow> bool" where
  "progress_upto videoId hi w w' \<longleftrightarrow>
     take (length (videos_rows w)) (videos_rows w') = videos_rows w
     \<and> sorted (progress_values videoId (rows_since w w'))
     \<and> list_all (\<lambda>p. p \<le> hi) (progress_values videoId (rows_since w w'))"


section \<open>Concrete inputs\<close>

text \<open>
  \<open>Number::toString\<close> on the integers below \<open>10^21\<close>, which it prints as decimal
  digits; the concrete inputs below contain no other number in a rationale.
\<close>

definition integer_nts :: "rat \<Rightarrow> string" where
  "integer_nts x = int_to_string \<lfloor>x\<rfloor>"

definition empty_world :: world where
  "empty_world = \<lparr>local_files = {}, audio_objects = {}, video_objects = {}, videos_rows = [],
     artifacts_rows = [], speech_requests = [], engine_calls = [], ids_generated = 0\<rparr>"

text \<open>A run in which every collaborator succeeds and the progress callbacks are written.\<close>

definition happy_env :: env where
  "happy_env = \<lparr>outputDir = ''/app/public/videos'', audioDir = ''/app/public/audio'',
     publicHost = ''http://localhost:3001'', randomUUID = ''job-1'', bundle_ok = True,
     speech = (\<lambda>i. Uploaded ''https://store/audio.mp3''), select_ok = True, render_start = 0,
     render_events = [\<lparr>t_check = 1500, fraction = 1 / 4, t_set = 1600\<rparr>,
                      \<lparr>t_check = 2000, fraction = 1 / 2, t_set = 2100\<rparr>,
                      \<lparr>t_check = 3000, fraction = 1, t_set = 3100\<rparr>],
     render_result = RenderOk, video_upload = UploadOk ''https://store/job-1.mp4'',
     video_row_manifest = True, unlink_ok = (\<lambda>p. True), remove_ok = True\<rparr>"

definition plain_scene :: "rat \<Rightarrow> string \<Rightarrow> scene" where
  "plain_scene d txt = \<lparr>sid = JStr ''scene'', start = JNum 0, duration = JNum d,
     narration = \<lparr>ntext = JStr txt, audioUrl = JNull\<rparr>,
     visuals = \<lparr>layout = JStr ''centered'', components = []\<rparr>\<rparr>"

definition two_scenes :: manifest where
  "two_scenes = \<lparr>meta = default_meta, scenes = [plain_scene 5 ''Hello'', plain_scene 7 []]\<rparr>"




text \<open>
  Every scene's audio is written to disk and its upload then fails; the render, the video
  upload and every deletion of the cleanup succeed.
\<close>

definition leak_env :: env where
  "leak_env = happy_env\<lparr>speech := (\<lambda>i. UploadFails)\<rparr>"

text \<open>The request body \<open>{"manifest": {"scenes": [{"narration": "Hello", "duration": 5}]}}\<close>.\<close>

definition hello_body :: jsval where
  "hello_body = JObj [(''manifest'',
     JObj [(''scenes'', JArr [JObj [(''narration'', JStr ''Hello''), (''duration'', JNum 5)]])])]"

section \<open>Normalization\<close>

lemma nat_to_string_small [simp]:
  "nat_to_string 0 = ''0''" "nat_to_string (Suc 0) = ''1''" "nat_to_string 1 = ''1''"
  "nat_to_string 2 = ''2''"
  by (simp_all add: nat_to_string.simps)

lemma bind_err_Inr: "bind_err r f = Inr y \<Longrightarrow> \<exists>v. r = Inr v \<and> f v = Inr y"
  by (cases r) (simp_all add: bind_err_def)

lemma transformScene_duration:
  "transformScene nts idx scn = Inr s \<Longrightarrow>
   duration s = or_else (opt_member scn ''duration'') (JNum 10)"
  apply (unfold transformScene_def Let_def)
  apply (drule bind_err_Inr, elim exE conjE)
  apply (drule bind_err_Inr, elim exE conjE)
  apply (drule bind_err_Inr, elim exE conjE)
  apply (erule sum.inject[THEN iffD1, elim_format])
  apply hypsubst
  apply (simp only: scene.simps)
  done

lemma transformManifest_meta:
  "transformManifest nts m = Inr (Some tm) \<Longrightarrow>
   meta tm = or_else (opt_member m ''meta'') default_meta"
  apply (unfold transformManifest_def)
  apply (cases "truthy m")
   apply (simp only: not_True_eq_False if_False)
   apply (drule bind_err_Inr, elim exE conjE)
   apply (erule sum.inject[THEN iffD1, elim_format])
   apply (erule option.inject[THEN iffD1, elim_format])
   apply hypsubst
   apply (simp only: manifest.simps)
  apply simp
  done

lemma map_idx_mem_err:
  "x \<in> set xs \<Longrightarrow> (\<And>i. \<exists>e. f i x = Inl e) \<Longrightarrow> \<exists>e. map_idx f i xs = Inl e"
proof (induction xs arbitrary: i)
  case Nil
  then show ?case by simp
next
  case (Cons y ys)
  show ?case
  proof (cases "f i y")
    case (Inl e)
    then show ?thesis by simp
  next
    case (Inr v)
    show ?thesis
    proof (cases "x = y")
      case True
      with Cons.prems(2)[of i] Inr show ?thesis by auto
    next
      case False
      with Cons.prems have "x \<in> set ys" by simp
      from Cons.IH[OF this Cons.prems(2), of "Suc i"] Inr show ?thesis by auto
    qed
  qed
qed

lemma transformScene_null_narration:
  "opt_member scn ''narration'' = JNull \<Longrightarrow> \<exists>e. transformScene nts idx scn = Inl e"
  by (auto simp: transformScene_def bind_err_def member_def Let_def split: sum.splits)

lemma transformManifest_null_narration:
  assumes "truthy m" "opt_member m ''scenes'' = JArr ss" "scn \<in> set ss"
    "opt_member scn ''narration'' = JNull"
  shows "\<exists>e. transformManifest nts m = Inl e"
proof -
  from map_idx_mem_err[OF assms(3), of "transformScene nts" 0]
    transformScene_null_narration[OF assms(4)]
  obtain e where "map_idx (transformScene nts) 0 ss = Inl e" by blast
  then show ?thesis using assms(1,2) by (simp add: transformManifest_def or_else_def bind_err_def)
qed




text \<open>
  Claim C8, amended. An absent, zero or otherwise falsy raw duration is replaced by the
  default 10; every other raw duration is kept as it is, so a positive number stays
  positive and a negative number stays negative.
\<close>
theorem transformScene_duration_default:
  assumes "transformScene nts idx scn = Inr s"
  shows "(\<not> truthy (opt_member scn ''duration'') \<longrightarrow> duration s = JNum 10)
       \<and> (truthy (opt_member scn ''duration'') \<longrightarrow> duration s = opt_member scn ''duration'')
       \<and> (\<forall>d. duration s = JNum d
              \<and> (\<not> truthy (opt_member scn ''duration'')
                   \<or> (\<exists>r. 0 < r \<and> opt_member scn ''duration'' = JNum r))
             \<longrightarrow> 0 < d)"
proof (intro conjI allI impI)
  let ?raw = "opt_member scn ''duration''"
  note dur = transformScene_duration[OF assms]
  show "duration s = JNum 10" if "\<not> truthy ?raw"
    using that dur by (simp add: or_else_def)
  show "duration s = ?raw" if "truthy ?raw"
    using that dur by (simp add: or_else_def)
  show "0 < d"
    if h: "duration s = JNum d \<and> (\<not> truthy ?raw \<or> (\<exists>r. 0 < r \<and> ?raw = JNum r))" for d
  proof (cases "truthy ?raw")
    case True
    with h obtain r where "0 < r" "?raw = JNum r" by blast
    with dur True h show ?thesis by (simp add: or_else_def)
  next
    case False
    with dur h show ?thesis by (simp add: or_else_def)
  qed
qed

text \<open>Counterexample to C8 as stated: a raw duration of -5 normalizes to -5.\<close>

theorem transformScene_negative_duration:
  "transformScene integer_nts 0 (JObj [(''duration'', JNum (- 5))]) =
     Inr \<lparr>sid = JStr ''scene_0'', start = JNum 0, duration = JNum (- 5),
          narration = \<lparr>ntext = JStr [], audioUrl = JNull\<rparr>,
          visuals = \<lparr>layout = JStr ''centered'', components = []\<rparr>\<rparr>"
  by (simp add: transformScene_def bind_err_def member_def or_else_def Let_def)


text \<open>Witness of C8: an absent duration becomes 10, a duration of 3 stays 3.\<close>

theorem transformScene_duration_default_witness:
  "transformScene integer_nts 0 (JObj []) =
     Inr \<lparr>sid = JStr ''scene_0'', start = JNum 0, duration = JNum 10,
          narration = \<lparr>ntext = JStr [], audioUrl = JNull\<rparr>,
          visuals = \<lparr>layout = JStr ''centered'', components = []\<rparr>\<rparr>
   \<and> \<not> truthy (opt_member (JObj []) ''duration'')
   \<and> transformScene integer_nts 1 (JObj [(''duration'', JNum 3)]) =
     Inr \<lparr>sid = JStr ''scene_1'', start = JNum 0, duration = JNum 3,
          narration = \<lparr>ntext = JStr [], audioUrl = JNull\<rparr>,
          visuals = \<lparr>layout = JStr ''centered'', components = []\<rparr>\<rparr>
   \<and> truthy (opt_member (JObj [(''duration'', JNum 3)]) ''duration'')"
proof -
  let ?s0 = "\<lparr>sid = JStr ''scene_0'', start = JNum 0, duration = JNum 10,
          narration = \<lparr>ntext = JStr [], audioUrl = JNull\<rparr>,
          visuals = \<lparr>layout = JStr ''centered'', components = []\<rparr>\<rparr>"
  let ?s1 = "\<lparr>sid = JStr ''scene_1'', start = JNum 0, duration = JNum 3,
          narration = \<lparr>ntext = JStr [], audioUrl = JNull\<rparr>,
          visuals = \<lparr>layout = JStr ''centered'', components = []\<rparr>\<rparr>"
  have a: "transformScene integer_nts 0 (JObj []) = Inr ?s0"
    by (simp add: transformScene_def bind_err_def member_def or_else_def Let_def)
  have b: "transformScene integer_nts 1 (JObj [(''duration'', JNum 3)]) = Inr ?s1"
    by (simp add: transformScene_def bind_err_def member_def or_else_def Let_def)
  have c: "\<not> truthy (opt_member (JObj []) ''duration'')" by simp
  have d: "truthy (opt_member (JObj [(''duration'', JNum 3)]) ''duration'')" by simp
  from transformScene_duration_default[OF a, THEN conjunct1] c
  have "duration ?s0 = JNum 10" by blast
  moreover from transformScene_duration_default[OF b, THEN conjunct2, THEN conjunct1] d
  have "duration ?s1 = opt_member (JObj [(''duration'', JNum 3)]) ''duration''" by blast
  ultimately show ?thesis using a b c d by blast
qed

text \<open>
  Claim C9, amended. When the raw manifest has no meta (absent or falsy), the normalized
  meta is the fixed default object: version 1.0, theme institutional-dark, resolution
  1920x1080, 30 frames per second. A meta object that is supplied is kept as it is, with
  no default for a field it omits; only the frame rate falls back to 30, at render
  planning, when \<open>meta.fps\<close> is absent or zero.
\<close>
theorem transformManifest_meta_default:
  assumes "transformManifest nts m = Inr (Some tm)"
  shows "(\<not> truthy (opt_member m ''meta'') \<longrightarrow>
            meta tm = default_meta
          \<and> opt_member (meta tm) ''version'' = JStr ''1.0''
          \<and> opt_member (meta tm) ''theme'' = JStr ''institutional-dark''
          \<and> opt_member (meta tm) ''resolution'' = JStr ''1920x1080''
          \<and> opt_member (meta tm) ''fps'' = JNum 30)
       \<and> (truthy (opt_member m ''meta'') \<longrightarrow> meta tm = opt_member m ''meta'')
       \<and> (\<not> truthy (opt_member (meta tm) ''fps'') \<longrightarrow> fps_of tm = JNum 30)"
  using transformManifest_meta[OF assms]
  by (simp add: or_else_def default_meta_def fps_of_def)

text \<open>Witness of C9: a manifest without meta gets the default object.\<close>

theorem transformManifest_meta_default_witness:
  "transformManifest integer_nts (JObj [(''scenes'', JArr [JObj [(''narration'', JStr ''Hi'')]])]) =
     Inr (Some \<lparr>meta = default_meta,
                scenes = [\<lparr>sid = JStr ''scene_0'', start = JNum 0, duration = JNum 10,
                           narration = \<lparr>ntext = JStr ''Hi'', audioUrl = JNull\<rparr>,
                           visuals = \<lparr>layout = JStr ''centered'', components = []\<rparr>\<rparr>]\<rparr>)
   \<and> opt_member default_meta ''version'' = JStr ''1.0''
   \<and> opt_member default_meta ''fps'' = JNum 30"
proof -
  let ?m = "JObj [(''scenes'', JArr [JObj [(''narration'', JStr ''Hi'')]])]"
  let ?tm = "\<lparr>meta = default_meta,
                scenes = [\<lparr>sid = JStr ''scene_0'', start = JNum 0, duration = JNum 10,
                           narration = \<lparr>ntext = JStr ''Hi'', audioUrl = JNull\<rparr>,
                           visuals = \<lparr>layout = JStr ''centered'', components = []\<rparr>\<rparr>]\<rparr>"
  have a: "transformManifest integer_nts ?m = Inr (Some ?tm)"
    by (simp add: transformManifest_def transformScene_def bind_err_def member_def or_else_def Let_def)
  have b: "\<not> truthy (opt_member ?m ''meta'')" by simp
  from transformManifest_meta_default[OF a] a b show ?thesis by simp
qed

text \<open>
  Counterexample to C9 as stated: the meta object \<open>{"fps": 24}\<close> is kept as it is, with
  no version, theme or resolution.
\<close>

theorem transformManifest_partial_meta:
  "transformManifest integer_nts
     (JObj [(''meta'', JObj [(''fps'', JNum 24)]),
            (''scenes'', JArr [JObj [(''narration'', JStr ''Hi'')]])]) =
     Inr (Some \<lparr>meta = JObj [(''fps'', JNum 24)],
                scenes = [\<lparr>sid = JStr ''scene_0'', start = JNum 0, duration = JNum 10,
                           narration = \<lparr>ntext = JStr ''Hi'', audioUrl = JNull\<rparr>,
                           visuals = \<lparr>layout = JStr ''centered'', components = []\<rparr>\<rparr>]\<rparr>)
   \<and> opt_member (JObj [(''fps'', JNum 24)]) ''version'' = JUndefined
   \<and> opt_member (JObj [(''fps'', JNum 24)]) ''theme'' = JUndefined
   \<and> opt_member (JObj [(''fps'', JNum 24)]) ''resolution'' = JUndefined"
  by (simp add: transformManifest_def transformScene_def bind_err_def member_def or_else_def Let_def)

text \<open>
  Claim C10. A raw manifest with a scene whose narration is null makes
  \<open>transformManifest\<close> throw, and the submission handler throws with it before a job
  id is generated: the world is unchanged.
\<close>
theorem null_narration_throws:
  assumes "member body ''manifest'' = Inr m" and "truthy m"
    and "opt_member m ''scenes'' = JArr ss" and "scn \<in> set ss"
    and "opt_member scn ''narration'' = JNull"
  shows "(\<exists>err. transformManifest nts m = Inl err)
       \<and> (\<exists>err. generate_video nts e body w = (Inl err, w))"
proof -
  from transformManifest_null_narration[OF assms(2-5)]
  obtain err where err: "transformManifest nts m = Inl err" by blast
  then have "generate_video nts e body w = (Inl err, w)"
    using assms(1,2) by (simp add: generate_video_def Let_def)
  with err show ?thesis by blast
qed

text \<open>Witness of C10: the manifest \<open>{"scenes": [{"narration": null}]}\<close>.\<close>

theorem null_narration_throws_witness:
  "transformManifest integer_nts (JObj [(''scenes'', JArr [JObj [(''narration'', JNull)]])])
     = Inl (CannotReadProperty ''audioUrl'')
   \<and> (\<exists>err. generate_video integer_nts happy_env
         (JObj [(''manifest'', JObj [(''scenes'', JArr [JObj [(''narration'', JNull)]])])])
         empty_world = (Inl err, empty_world))"
proof -
  let ?scn = "JObj [(''narration'', JNull)]"
  let ?m = "JObj [(''scenes'', JArr [?scn])]"
  let ?body = "JObj [(''manifest'', ?m)]"
  have a: "member ?body ''manifest'' = Inr ?m" by (simp add: member_def)
  have b: "truthy ?m" by simp
  have c: "opt_member ?m ''scenes'' = JArr [?scn]" by simp
  have d: "?scn \<in> set [?scn]" by simp
  have f: "opt_member ?scn ''narration'' = JNull" by simp
  have g: "transformManifest integer_nts ?m = Inl (CannotReadProperty ''audioUrl'')"
    by (simp add: transformManifest_def transformScene_def bind_err_def member_def or_else_def Let_def)
  from null_narration_throws[OF a b c d f, of integer_nts happy_env empty_world] g
  show ?thesis by simp
qed

text \<open>
  Claim C6. A submission whose manifest is missing or normalizes to zero scenes is
  answered with a 400 response and leaves the world unchanged: no job id is generated,
  nothing is written to the job store and no background work runs.
\<close>
theorem empty_manifest_rejected:
  assumes "member body ''manifest'' = Inr mf"
    and "\<not> truthy mf \<or> (\<exists>tm. transformManifest nts mf = Inr (Some tm) \<and> scenes tm = [])"
  shows "\<exists>msg. generate_video nts e body w = (Inr (BadRequest msg), w)"
  using assms by (auto simp: generate_video_def Let_def)

text \<open>Witness of C6: a manifest with an empty scene list, and a body without manifest.\<close>

theorem empty_manifest_rejected_witness:
  "generate_video integer_nts happy_env (JObj [(''manifest'', JObj [(''scenes'', JArr [])])]) empty_world
     = (Inr (BadRequest ''Invalid or empty manifest''), empty_world)
   \<and> generate_video integer_nts happy_env (JObj []) empty_world
     = (Inr (BadRequest ''Missing manifest''), empty_world)"
proof -
  let ?m = "JObj [(''scenes'', JArr [])]"
  have a: "member (JObj [(''manifest'', ?m)]) ''manifest'' = Inr ?m" by (simp add: member_def)
  have b: "transformManifest integer_nts ?m = Inr (Some \<lparr>meta = default_meta, scenes = []\<rparr>)"
    by (simp add: transformManifest_def bind_err_def or_else_def)
  have c: "member (JObj []) ''manifest'' = Inr JUndefined" by (simp add: member_def)
  have d: "\<not> truthy JUndefined" by simp
  from b have b': "\<not> truthy ?m \<or> (\<exists>tm. transformManifest integer_nts ?m = Inr (Some tm) \<and> scenes tm = [])"
    by simp
  from empty_manifest_rejected[OF a b', of happy_env empty_world]
    empty_manifest_rejected[OF c disjI1[OF d], of integer_nts happy_env empty_world]
  show ?thesis by (auto simp: generate_video_def Let_def member_def b)
qed

section \<open>Fields the stages leave alone\<close>

lemma db_write_fields [simp]:
  "videos_rows (db_write v u w) = videos_rows w @ [(v, u)]"
  "local_files (db_write v u w) = local_files w"
  "audio_objects (db_write v u w) = audio_objects w"
  "video_objects (db_write v u w) = video_objects w"
  "speech_requests (db_write v u w) = speech_requests w"
  "engine_calls (db_write v u w) = engine_calls w"
  "ids_generated (db_write v u w) = ids_generated w"
  by (simp_all add: db_write_def)

lemma audio_scene_cases:
  assumes "audio_scene e v i s j w = (s', j', w')"
  shows "videos_rows w' = videos_rows w"
    and "engine_calls w' = engine_calls w"
    and "ids_generated w' = ids_generated w"
    and "speech_requests w' = speech_requests w @ (case speech_text s of Some t \<Rightarrow> [(i, t)] | None \<Rightarrow> [])"
  using assms
  by (auto simp: audio_scene_def needs_audio_def speech_text_def Let_def
      split: jsval.splits audio_outcome.splits if_splits)




section \<open>The narration loop\<close>






section \<open>Cleanup and the other stages: untouched fields\<close>

lemma try_unlink_fields [simp]:
  "videos_rows (try_unlink e p w) = videos_rows w"
  "engine_calls (try_unlink e p w) = engine_calls w"
  "speech_requests (try_unlink e p w) = speech_requests w"
  "audio_objects (try_unlink e p w) = audio_objects w"
  by (simp_all add: try_unlink_def)

lemma fold_try_unlink_fields [simp]:
  "videos_rows (fold (try_unlink e) ps w) = videos_rows w"
  "engine_calls (fold (try_unlink e) ps w) = engine_calls w"
  "speech_requests (fold (try_unlink e) ps w) = speech_requests w"
  "audio_objects (fold (try_unlink e) ps w) = audio_objects w"
  by (induction ps arbitrary: w) simp_all

lemma cleanup_fields [simp]:
  "videos_rows (cleanup e out j w) = videos_rows w"
  "engine_calls (cleanup e out j w) = engine_calls w"
  "speech_requests (cleanup e out j w) = speech_requests w"
  by (simp_all add: cleanup_def Let_def)

lemma on_progress_fields [simp]:
  "engine_calls (on_progress v evs t w) = engine_calls w"
  "speech_requests (on_progress v evs t w) = speech_requests w"
  "local_files (on_progress v evs t w) = local_files w"
  "audio_objects (on_progress v evs t w) = audio_objects w"
  by (induction evs arbitrary: t w) simp_all

lemma start_job_fields [simp]:
  "engine_calls (start_job v mid w) = engine_calls w @ [Bundle]"
  "speech_requests (start_job v mid w) = speech_requests w"
  "local_files (start_job v mid w) = local_files w"
  "audio_objects (start_job v mid w) = audio_objects w"
  by (simp_all add: start_job_def Let_def)

lemma publish_video_fields [simp]:
  "engine_calls (publish_video e v mid w) = engine_calls w"
  "speech_requests (publish_video e v mid w) = speech_requests w"
  "local_files (publish_video e v mid w) = local_files w"
  "audio_objects (publish_video e v mid w) = audio_objects w"
  by (simp_all add: publish_video_def Let_def split: upload_outcome.splits)


section \<open>Rounding and the audio progress\<close>

lemma math_round_mono: "x \<le> y \<Longrightarrow> math_round x \<le> math_round y"
  by (simp add: math_round_def floor_mono)

lemma math_round_nonneg: "0 \<le> x \<Longrightarrow> 0 \<le> math_round x"
  by (simp add: math_round_def)

lemma math_round_le: "x \<le> of_int k \<Longrightarrow> math_round x \<le> k"
  unfolding math_round_def floor_le_iff by linarith

lemma scaled_round_le: "x \<le> 1 \<Longrightarrow> math_round (x * 25) + 5 \<le> 30"
proof -
  assume "x \<le> 1"
  then have "x * 25 \<le> of_int 25" by simp
  from math_round_le[OF this] show ?thesis by simp
qed

lemma scaled_round_mono: "x \<le> y \<Longrightarrow> math_round (x * 25) + 5 \<le> math_round (y * 25) + 5"
proof -
  assume "x \<le> y"
  then have "x * 25 \<le> y * 25" by simp
  from math_round_mono[OF this] show ?thesis by simp
qed

lemma audioProgress_ge: "5 \<le> audioProgress i n"
proof -
  have "(0::rat) \<le> of_nat i / of_nat n * 25" by simp
  from math_round_nonneg[OF this] show ?thesis unfolding audioProgress_def by linarith
qed

lemma audioProgress_le: "i \<le> n \<Longrightarrow> audioProgress i n \<le> 30"
proof -
  assume "i \<le> n"
  then have "(of_nat i :: rat) / of_nat n \<le> 1"
    by (cases "n = 0") (simp_all add: divide_le_eq_1)
  from scaled_round_le[OF this] show ?thesis unfolding audioProgress_def .
qed

lemma audioProgress_mono: "i \<le> k \<Longrightarrow> audioProgress i n \<le> audioProgress k n"
proof -
  assume "i \<le> k"
  then have "(of_nat i :: rat) / of_nat n \<le> of_nat k / of_nat n"
    by (simp add: divide_right_mono)
  from scaled_round_mono[OF this] show ?thesis unfolding audioProgress_def .
qed

lemma render_progress_bounds:
  assumes "0 \<le> f" "f \<le> 1"
  shows "30 \<le> 30 + math_round (f * 60)" and "30 + math_round (f * 60) \<le> 90"
proof -
  from assms(1) have "0 \<le> f * 60" by simp
  from math_round_nonneg[OF this] show "30 \<le> 30 + math_round (f * 60)" by simp
  from assms(2) have "f * 60 \<le> of_int 60" by simp
  from math_round_le[OF this] show "30 + math_round (f * 60) \<le> 90" by simp
qed

section \<open>Progress values of appended rows\<close>

lemma progress_values_simps [simp]:
  "progress_values v [] = []"
  "progress_values v (rows @ rows') = progress_values v rows @ progress_values v rows'"
  "progress_values v [(v, u)] = (case u_progress u of Some p \<Rightarrow> [p] | None \<Rightarrow> [])"
  by (simp_all add: progress_values_def split: option.splits)

lemma extends_iff:
  "take (length xs) ys = xs \<and> P (drop (length xs) ys) \<longleftrightarrow> (\<exists>new. ys = xs @ new \<and> P new)"
proof
  assume a: "take (length xs) ys = xs \<and> P (drop (length xs) ys)"
  have "ys = take (length xs) ys @ drop (length xs) ys" by simp
  with a have "ys = xs @ drop (length xs) ys" by simp
  with a show "\<exists>new. ys = xs @ new \<and> P new" by blast
next
  assume "\<exists>new. ys = xs @ new \<and> P new"
  then show "take (length xs) ys = xs \<and> P (drop (length xs) ys)" by auto
qed

lemma progress_upto_alt:
  "progress_upto v hi w w' \<longleftrightarrow>
     (\<exists>new. videos_rows w' = videos_rows w @ new
          \<and> sorted (progress_values v new)
          \<and> list_all (\<lambda>p. p \<le> hi) (progress_values v new))"
  unfolding progress_upto_def rows_since_def
  using extends_iff[of "videos_rows w" "videos_rows w'"
      "\<lambda>new. sorted (progress_values v new) \<and> list_all (\<lambda>p. p \<le> hi) (progress_values v new)"]
  by simp


lemma progress_upto_refl: "progress_upto v hi w w"
  by (simp add: progress_upto_alt)

lemma progress_upto_same_rows:
  "progress_upto v hi w w1 \<Longrightarrow> videos_rows w2 = videos_rows w1 \<Longrightarrow> progress_upto v hi w w2"
  by (simp add: progress_upto_alt)

lemma progress_upto_weaken:
  "progress_upto v q w w1 \<Longrightarrow> q \<le> hi \<Longrightarrow> progress_upto v hi w w1"
  unfolding progress_upto_alt list_all_iff by (meson order_trans)

lemma progress_upto_write:
  assumes "progress_upto v q w w1" "u_progress u = Some p" "q \<le> p"
  shows "progress_upto v p w (db_write v u w1)"
proof -
  from assms(1) obtain new where new: "videos_rows w1 = videos_rows w @ new"
    "sorted (progress_values v new)" "list_all (\<lambda>x. x \<le> q) (progress_values v new)"
    unfolding progress_upto_alt by blast
  from new(3) assms(3) have le: "\<forall>x\<in>set (progress_values v new). x \<le> p"
    unfolding list_all_iff by auto
  have "videos_rows (db_write v u w1) = videos_rows w @ (new @ [(v, u)])"
    using new(1) by simp
  moreover have "sorted (progress_values v (new @ [(v, u)]))"
    using new(2) le assms(2) by (simp add: sorted_append)
  moreover have "list_all (\<lambda>x. x \<le> p) (progress_values v (new @ [(v, u)]))"
    using le assms(2) by (simp add: list_all_iff)
  ultimately show ?thesis unfolding progress_upto_alt by blast
qed

lemma progress_upto_write_none:
  assumes "progress_upto v q w w1" "u_progress u = None"
  shows "progress_upto v q w (db_write v u w1)"
proof -
  from assms(1) obtain new where new: "videos_rows w1 = videos_rows w @ new"
    "sorted (progress_values v new)" "list_all (\<lambda>x. x \<le> q) (progress_values v new)"
    unfolding progress_upto_alt by blast
  have "videos_rows (db_write v u w1) = videos_rows w @ (new @ [(v, u)])"
    using new(1) by simp
  moreover have "progress_values v (new @ [(v, u)]) = progress_values v new"
    using assms(2) by simp
  ultimately show ?thesis using new(2,3) unfolding progress_upto_alt by metis
qed

lemma progress_upto_sorted:
  "progress_upto v hi w w' \<Longrightarrow> sorted (progress_values v (rows_since w w'))"
  by (auto simp: progress_upto_alt rows_since_def)

lemma progress_upto_audio_loop:
  "audio_loop e v n i ss j w1 = (ss', j', w') \<Longrightarrow> progress_upto v q w w1 \<Longrightarrow>
   q \<le> audioProgress i n \<Longrightarrow> i + length ss \<le> n \<Longrightarrow> progress_upto v 30 w w'"
proof (induction ss arbitrary: i j w1 ss' j' w' q)
  case Nil
  from Nil.prems(4) have "audioProgress i n \<le> 30" by (simp add: audioProgress_le)
  with Nil.prems(3) have "q \<le> 30" by simp
  with Nil.prems(1,2) show ?case by (auto intro: progress_upto_weaken)
next
  case (Cons s ss)
  let ?u = "no_update\<lparr>u_progress := Some (audioProgress i n),
                u_label := Some (''Generating Audio ('' @ nat_to_string (i + 1) @ ''/''
                                 @ nat_to_string n @ '')'')\<rparr>"
  from Cons.prems(1) obtain s1 j1 w2 ss1 where
    step: "audio_scene e v i s j (db_write v ?u w1) = (s1, j1, w2)"
    and rest: "audio_loop e v n (Suc i) ss j1 w2 = (ss1, j', w')"
    by (auto split: prod.splits)
  have "u_progress ?u = Some (audioProgress i n)" by simp
  from progress_upto_write[OF Cons.prems(2) this Cons.prems(3)]
  have "progress_upto v (audioProgress i n) w (db_write v ?u w1)" .
  from progress_upto_same_rows[OF this audio_scene_cases(1)[OF step]]
  have a: "progress_upto v (audioProgress i n) w w2" .
  have b: "audioProgress i n \<le> audioProgress (Suc i) n" by (simp add: audioProgress_mono)
  from Cons.prems(4) have c: "Suc i + length ss \<le> n" by simp
  from Cons.IH[OF rest a b c] show ?case .
qed

lemma progress_upto_on_progress:
  "progress_upto v q w w1 \<Longrightarrow> q \<le> 90 \<Longrightarrow>
   \<forall>ev\<in>set evs. q \<le> 30 + math_round (fraction ev * 60) \<and> fraction ev \<le> 1 \<Longrightarrow>
   sorted (map fraction evs) \<Longrightarrow> progress_upto v 90 w (on_progress v evs t w1)"
proof (induction evs arbitrary: q w1 t)
  case Nil
  then show ?case by (auto intro: progress_upto_weaken)
next
  case (Cons ev evs)
  show ?case
  proof (cases "t_check ev - t > 1000")
    case True
    let ?p = "30 + math_round (fraction ev * 60)"
    let ?u = "no_update\<lparr>u_progress := Some ?p,
                u_label := Some (''Rendering ('' @ int_to_string (math_round (fraction ev * 100))
                                 @ ''%)'')\<rparr>"
    have up: "u_progress ?u = Some ?p" by simp
    from Cons.prems(3) have qp: "q \<le> ?p" and f1: "fraction ev \<le> 1" by simp_all
    from f1 have "fraction ev * 60 \<le> of_int 60" by simp
    from math_round_le[OF this] have p90: "?p \<le> 90" by simp
    from progress_upto_write[OF Cons.prems(1) up qp]
    have a: "progress_upto v ?p w (db_write v ?u w1)" .
    have "\<forall>ev'\<in>set evs. ?p \<le> 30 + math_round (fraction ev' * 60) \<and> fraction ev' \<le> 1"
    proof
      fix ev' assume mem: "ev' \<in> set evs"
      with Cons.prems(4) have "fraction ev \<le> fraction ev'" by auto
      then have "fraction ev * 60 \<le> fraction ev' * 60" by simp
      from math_round_mono[OF this] Cons.prems(3) mem
      show "?p \<le> 30 + math_round (fraction ev' * 60) \<and> fraction ev' \<le> 1" by simp
    qed
    moreover from Cons.prems(4) have "sorted (map fraction evs)" by simp
    ultimately have "progress_upto v 90 w (on_progress v evs (t_set ev) (db_write v ?u w1))"
      using Cons.IH[OF a p90] by blast
    with True show ?thesis by simp
  next
    case False
    from Cons.prems(3) have "\<forall>ev'\<in>set evs. q \<le> 30 + math_round (fraction ev' * 60) \<and> fraction ev' \<le> 1"
      by simp
    moreover from Cons.prems(4) have "sorted (map fraction evs)" by simp
    ultimately have "progress_upto v 90 w (on_progress v evs t w1)"
      using Cons.IH[OF Cons.prems(1,2)] by blast
    with False show ?thesis by simp
  qed
qed

lemma progress_upto_start_job: "progress_upto v 5 w (start_job v mid w)"
proof (cases "truthy mid")
  case True
  let ?u = "no_update\<lparr>u_status := Some ''processing'', u_progress := Some 5,
                        u_label := Some ''Bundling project''\<rparr>"
  have "u_progress ?u = Some 5" by simp
  from progress_upto_write[OF progress_upto_refl this order_refl]
  have "progress_upto v 5 w (db_write v ?u w)" .
  then show ?thesis
    by (rule progress_upto_same_rows) (simp add: start_job_def True)
next
  case False
  show ?thesis
    by (rule progress_upto_same_rows[OF progress_upto_refl]) (simp add: start_job_def False)
qed

lemma progress_upto_render_video:
  assumes "render_video e v out ss fr w1 = (r, w')" and "progress_upto v q w w1" and "q \<le> 30"
    and "\<forall>ev\<in>set (render_events e). 0 \<le> fraction ev \<and> fraction ev \<le> 1"
    and "sorted (map fraction (render_events e))"
  shows "progress_upto v 90 w w'"
proof -
  let ?w5 = "w1\<lparr>engine_calls := engine_calls w1 @ [RenderMedia ss fr]\<rparr>"
  let ?w6 = "on_progress v (render_events e) (render_start e) ?w5"
  have a: "progress_upto v q w ?w5"
    by (rule progress_upto_same_rows[OF assms(2)]) simp
  have b: "\<forall>ev\<in>set (render_events e). q \<le> 30 + math_round (fraction ev * 60) \<and> fraction ev \<le> 1"
  proof
    fix ev assume "ev \<in> set (render_events e)"
    with assms(4) have "0 \<le> fraction ev" "fraction ev \<le> 1" by simp_all
    from render_progress_bounds(1)[OF this] assms(3) \<open>fraction ev \<le> 1\<close>
    show "q \<le> 30 + math_round (fraction ev * 60) \<and> fraction ev \<le> 1" by simp
  qed
  from assms(3) have "q \<le> 90" by simp
  from progress_upto_on_progress[OF a this b assms(5)]
  have c: "progress_upto v 90 w ?w6" .
  have "videos_rows w' = videos_rows ?w6"
    using assms(1) by (auto simp: render_video_def Let_def split: render_outcome.splits if_splits)
  from progress_upto_same_rows[OF c this] show ?thesis .
qed

lemma progress_upto_publish_video:
  assumes "progress_upto v q w w1" and "q \<le> 95"
  shows "progress_upto v 100 w (publish_video e v mid w1)"
proof -
  let ?u7 = "no_update\<lparr>u_progress := Some 95, u_label := Some ''Uploading to storage''\<rparr>"
  let ?w7 = "db_write v ?u7 w1"
  let ?url = "case video_upload e of UploadOk url \<Rightarrow> url
              | _ \<Rightarrow> publicHost e @ ''/videos/'' @ v @ ''.mp4''"
  let ?w8 = "case video_upload e of
               UploadOk url \<Rightarrow> ?w7\<lparr>video_objects := insert (v @ ''.mp4'') (video_objects ?w7)\<rparr>
             | _ \<Rightarrow> ?w7"
  let ?u9 = "\<lparr>u_status = Some ''completed'', u_progress = Some 100,
              u_label = Some ''Finished'', u_video_url = Some ?url\<rparr>"
  have "u_progress ?u7 = Some 95" by simp
  from progress_upto_write[OF assms(1) this assms(2)]
  have a: "progress_upto v 95 w ?w7" .
  have "videos_rows ?w8 = videos_rows ?w7" by (simp split: upload_outcome.splits)
  from progress_upto_same_rows[OF a this] have b: "progress_upto v 95 w ?w8" .
  have "u_progress ?u9 = Some 100" by simp
  from progress_upto_write[OF b this] have c: "progress_upto v 100 w (db_write v ?u9 ?w8)" by simp
  have "videos_rows (publish_video e v mid w1) = videos_rows (db_write v ?u9 ?w8)"
    by (simp add: publish_video_def Let_def split: upload_outcome.splits)
  from progress_upto_same_rows[OF c this] show ?thesis .
qed

lemma progress_upto_try_block:
  assumes "try_block e v out mid tm w = (r, j, w')"
    and "\<forall>ev\<in>set (render_events e). 0 \<le> fraction ev \<and> fraction ev \<le> 1"
    and "sorted (map fraction (render_events e))"
  shows "progress_upto v 100 w w'"
proof (cases "bundle_ok e")
  case False
  with assms(1) have "w' = start_job v mid w" by (simp add: try_block_def Let_def)
  with progress_upto_start_job[of v w mid] show ?thesis by (auto intro: progress_upto_weaken)
next
  case True
  obtain ss j1 w3 where loop:
    "audio_loop e v (length (scenes tm)) 0 (scenes tm) \<lparr>audioFiles = [], supabaseAudioPaths = []\<rparr>
       (start_job v mid w) = (ss, j1, w3)"
    by (cases "audio_loop e v (length (scenes tm)) 0 (scenes tm)
                 \<lparr>audioFiles = [], supabaseAudioPaths = []\<rparr> (start_job v mid w)") auto
  from progress_upto_audio_loop[OF loop progress_upto_start_job audioProgress_ge]
  have a: "progress_upto v 30 w w3" by simp
  let ?w4 = "w3\<lparr>engine_calls := engine_calls w3 @ [SelectComposition ss]\<rparr>"
  have b: "progress_upto v 30 w ?w4" by (rule progress_upto_same_rows[OF a]) simp
  show ?thesis
  proof (cases "select_ok e")
    case False
    with assms(1) True loop have "w' = ?w4" by (simp add: try_block_def Let_def)
    with b show ?thesis by (auto intro: progress_upto_weaken)
  next
    case sel: True
    obtain r6 w6 where rv: "render_video e v out ss (durationInFrames tm) ?w4 = (r6, w6)"
      by (cases "render_video e v out ss (durationInFrames tm) ?w4") auto
    from progress_upto_render_video[OF rv b order_refl assms(2,3)]
    have c: "progress_upto v 90 w w6" .
    show ?thesis
    proof (cases r6)
      case None
      with assms(1) True loop sel rv have "w' = publish_video e v mid w6"
        by (simp add: try_block_def Let_def)
      with progress_upto_publish_video[OF c, of e mid] show ?thesis by simp
    next
      case (Some err)
      with assms(1) True loop sel rv have "w' = w6" by (simp add: try_block_def Let_def)
      with c show ?thesis by (auto intro: progress_upto_weaken)
    qed
  qed
qed

lemma progress_upto_background:
  assumes "\<forall>ev\<in>set (render_events e). 0 \<le> fraction ev \<and> fraction ev \<le> 1"
    and "sorted (map fraction (render_events e))"
  shows "progress_upto v 100 w (background e v out mid tm w)"
proof -
  obtain r j w1 where tb: "try_block e v out mid tm w = (r, j, w1)"
    by (cases "try_block e v out mid tm w") auto
  from progress_upto_try_block[OF tb assms] have a: "progress_upto v 100 w w1" .
  show ?thesis
  proof (cases r)
    case None
    with tb have "videos_rows (background e v out mid tm w) = videos_rows w1"
      by (simp add: background_def)
    from progress_upto_same_rows[OF a this] show ?thesis .
  next
    case (Some err)
    let ?u = "no_update\<lparr>u_status := Some ''failed''\<rparr>"
    have "u_progress ?u = None" by (simp add: no_update_def)
    from progress_upto_write_none[OF a this] have b: "progress_upto v 100 w (db_write v ?u w1)" .
    from Some tb have "videos_rows (background e v out mid tm w) = videos_rows (db_write v ?u w1)"
      by (simp add: background_def)
    from progress_upto_same_rows[OF b this] show ?thesis .
  qed
qed

text \<open>
  Claim C2. When the render engine reports completion fractions between 0 and 1 in
  non-decreasing order, the progress values a job writes to the job store are
  non-decreasing, on every path through the job.
\<close>
theorem progress_non_decreasing:
  assumes "\<forall>ev\<in>set (render_events e). 0 \<le> fraction ev \<and> fraction ev \<le> 1"
    and "sorted (map fraction (render_events e))"
  shows "sorted (progress_values videoId
           (rows_since w (background e videoId outputLocation manifest_id tm w)))"
  using progress_upto_background[OF assms] by (rule progress_upto_sorted)

text \<open>
  Witness of C2: a successful job with two scenes; of three render callbacks the second
  falls inside the throttle interval.
\<close>

theorem progress_non_decreasing_witness:
  "sorted (progress_values ''job-1'' (rows_since empty_world
     (background happy_env ''job-1'' ''/app/public/videos/job-1.mp4'' (JStr ''m-1'') two_scenes
        empty_world)))
   \<and> progress_values ''job-1'' (rows_since empty_world
     (background happy_env ''job-1'' ''/app/public/videos/job-1.mp4'' (JStr ''m-1'') two_scenes
        empty_world)) = [5, 5, 18, 45, 90, 95, 100]
   \<and> map fraction (render_events happy_env) = [1 / 4, 1 / 2, 1]"
proof -
  have a: "\<forall>ev\<in>set (render_events happy_env). 0 \<le> fraction ev \<and> fraction ev \<le> 1"
    by (simp add: happy_env_def)
  have b: "sorted (map fraction (render_events happy_env))"
    by (simp add: happy_env_def)
  have c: "progress_values ''job-1'' (rows_since empty_world
     (background happy_env ''job-1'' ''/app/public/videos/job-1.mp4'' (JStr ''m-1'') two_scenes
        empty_world)) = [5, 5, 18, 45, 90, 95, 100]"
    by code_simp
  have d: "map fraction (render_events happy_env) = [1 / 4, 1 / 2, 1]"
    by (simp add: happy_env_def)
  from progress_non_decreasing[OF a b] c d show ?thesis by blast
qed

section \<open>What the try block does to the engine, the synthesizer and the files\<close>












section \<open>Rows with a property\<close>














section \<open>The cleanup on tracked paths\<close>

lemma fold_try_unlink_files:
  "\<forall>p\<in>set ps. unlink_ok e p \<Longrightarrow>
   local_files (fold (try_unlink e) ps w) = local_files w - set ps"
  by (induction ps arbitrary: w) (auto simp: try_unlink_def)

lemma cleanup_removes_tracked:
  assumes "unlink_ok e out" and "\<forall>p\<in>set (audioFiles j). unlink_ok e p" and "remove_ok e"
  shows "local_files (cleanup e out j w) = local_files w - {out} - set (audioFiles j)"
    and "audio_objects (cleanup e out j w) = audio_objects w - set (supabaseAudioPaths j)"
proof -
  have "local_files (try_unlink e out w) = local_files w - {out}"
    using assms(1) by (auto simp: try_unlink_def)
  with fold_try_unlink_files[OF assms(2), of "try_unlink e out w"]
  show "local_files (cleanup e out j w) = local_files w - {out} - set (audioFiles j)"
    by (simp add: cleanup_def Let_def)
  show "audio_objects (cleanup e out j w) = audio_objects w - set (supabaseAudioPaths j)"
    using assms(3) by (simp add: cleanup_def Let_def)
qed

text \<open>
  Claim C1 does not hold on the code. The cleanup deletes the paths the job has tracked,
  but the audio file of a scene is tracked only after its upload has succeeded. For the
  request \<open>hello_body\<close>, with the audio written to disk and its upload failing, the job
  is accepted and the audio file of scene 0 is still on disk after the cleanup, although
  every deletion the cleanup attempts succeeds. With the upload succeeding, the same
  request leaves no file and no audio object.
\<close>

theorem untracked_audio_file_survives:
  "fst (generate_video integer_nts leak_env hello_body empty_world) = Inr (Processing ''job-1'')
   \<and> unlink_ok leak_env ''/app/public/audio/job-1_scene_0.mp3''
   \<and> local_files (snd (generate_video integer_nts leak_env hello_body empty_world)) =
       {''/app/public/audio/job-1_scene_0.mp3''}
   \<and> local_files (snd (generate_video integer_nts happy_env hello_body empty_world)) = {}
   \<and> audio_objects (snd (generate_video integer_nts happy_env hello_body empty_world)) = {}"
  by code_simp

end
